theory Spec2Isabelle
  imports Complex_Main
begin

section \<open>Python text primitives used by final\_project\_min.py\<close>

text \<open>
  Text is modelled as \<^typ>\<open>string\<close>: one \<^typ>\<open>char\<close> per code point, for code points
  below 256. \<open>len\<close> is \<^const>\<open>length\<close>, \<open>+\<close> on strings is \<open>@\<close>.
\<close>

definition dq :: char where
  "dq = CHR 0x22"

definition nl :: char where
  "nl = CHR 0x0A"

definition sq :: char where
  "sq = CHR 0x27"

text \<open>\<open>sep.join(xs)\<close>\<close>

fun py_join :: "'a list \<Rightarrow> 'a list list \<Rightarrow> 'a list" where
  "py_join sep [] = []"
| "py_join sep [x] = x"
| "py_join sep (x # y # ys) = x @ sep @ py_join sep (y # ys)"

text \<open>\<open>str(n)\<close> for an integer: decimal digits, a minus sign for negatives.\<close>

definition digit_char :: "nat \<Rightarrow> char" where
  "digit_char d = char_of (48 + d)"

fun str_nat :: "nat \<Rightarrow> string" where
  "str_nat n = (if n < 10 then [digit_char n] else str_nat (n div 10) @ [digit_char (n mod 10)])"

declare str_nat.simps [simp del]

definition str_int :: "int \<Rightarrow> string" where
  "str_int i = (if i < 0 then CHR ''-'' # str_nat (nat (- i)) else str_nat (nat i))"

text \<open>\<open>v.replace('"', '""')\<close>\<close>

definition double_quotes :: "string \<Rightarrow> string" where
  "double_quotes v = concat (map (\<lambda>c. if c = dq then [dq, dq] else [c]) v)"

text \<open>
  \<open>text.encode("utf-8")\<close> on code points below 256: one byte below 128, two bytes from
  128 on. Bytes are \<^typ>\<open>char\<close>s as well.
\<close>

definition utf8_char :: "char \<Rightarrow> char list" where
  "utf8_char c = (let n = (of_char c :: nat) in
     if n < 128 then [c] else [char_of (192 + n div 64), char_of (128 + n mod 64)])"

definition utf8_encode :: "string \<Rightarrow> char list" where
  "utf8_encode s = concat (map utf8_char s)"


section \<open>make\_csv\_bytes\<close>

text \<open>
  The values the program puts into rows: text, the question number, the correctness
  flag. A row is a Python dict in insertion order: an association list whose keys are
  distinct; \<open>r.get(c, d)\<close> is the lookup with a default.
\<close>

datatype pyval = PStr string | PInt int | PBool bool | PNone

fun py_str :: "pyval \<Rightarrow> string" where
  "py_str (PStr s) = s"
| "py_str (PInt i) = str_int i"
| "py_str (PBool b) = (if b then ''True'' else ''False'')"
| "py_str PNone = ''None''"

type_synonym row = "(string \<times> pyval) list"

definition row_get :: "row \<Rightarrow> string \<Rightarrow> pyval \<Rightarrow> pyval" where
  "row_get r c d = (case map_of r c of None \<Rightarrow> d | Some v \<Rightarrow> v)"

text \<open>The body of the inner loop: one value of one row, escaped.\<close>

definition csv_value :: "pyval \<Rightarrow> string" where
  "csv_value x = (let v = double_quotes (py_str x) in
     if CHR '','' \<in> set v \<or> nl \<in> set v then [dq] @ v @ [dq] else v)"

text \<open>The list \<open>vals\<close> built for one row \<open>r\<close>.\<close>

definition csv_vals :: "string list \<Rightarrow> row \<Rightarrow> string list" where
  "csv_vals cols r = map (\<lambda>c. csv_value (row_get r c (PStr ''''))) cols"

definition csv_lines :: "row list \<Rightarrow> string list" where
  "csv_lines rows = (let cols = map fst (hd rows) in
     py_join '','' cols # map (\<lambda>r. py_join '','' (csv_vals cols r)) rows)"

definition make_csv_bytes :: "row list \<Rightarrow> char list" where
  "make_csv_bytes rows = (if rows = [] then [] else utf8_encode (py_join [nl] (csv_lines rows)))"


section \<open>More text primitives\<close>

text \<open>
  \<open>s.strip()\<close> removes the characters Python counts as whitespace; below code point 256
  these are 9 to 13, 28 to 32, 133 and 160.
\<close>

definition is_space :: "char \<Rightarrow> bool" where
  "is_space c = (let n = (of_char c :: nat) in
     (9 \<le> n \<and> n \<le> 13) \<or> (28 \<le> n \<and> n \<le> 32) \<or> n = 133 \<or> n = 160)"

definition py_strip :: "string \<Rightarrow> string" where
  "py_strip s = rev (dropWhile is_space (rev (dropWhile is_space s)))"

text \<open>
  \<open>s.lower()\<close> below code point 256: the letters A to Z and the capital letters of
  Latin-1 (192 to 222 without the multiplication sign 215) move up by 32.
\<close>

definition lower_char :: "char \<Rightarrow> char" where
  "lower_char c = (let n = (of_char c :: nat) in
     if (65 \<le> n \<and> n \<le> 90) \<or> (192 \<le> n \<and> n \<le> 222 \<and> n \<noteq> 215) then char_of (n + 32) else c)"

definition py_lower :: "string \<Rightarrow> string" where
  "py_lower s = map lower_char s"

definition py_endswith :: "string \<Rightarrow> string \<Rightarrow> bool" where
  "py_endswith s suf = (length suf \<le> length s \<and> drop (length s - length suf) s = suf)"

text \<open>
  \<open>s.find(c)\<close> and \<open>s.rfind(c)\<close> for a single character: the index of the first (last)
  occurrence, or \<open>-1\<close>.
\<close>

fun py_find :: "string \<Rightarrow> char \<Rightarrow> int" where
  "py_find [] c = -1"
| "py_find (x # xs) c = (if x = c then 0 else (let i = py_find xs c in if i < 0 then -1 else i + 1))"

fun py_rfind :: "string \<Rightarrow> char \<Rightarrow> int" where
  "py_rfind [] c = -1"
| "py_rfind (x # xs) c = (let i = py_rfind xs c in
     if 0 \<le> i then i + 1 else if x = c then 0 else -1)"

text \<open>
  \<open>xs[start:end]\<close>: a negative index counts from the end, and every index is clipped to
  the range of the list.
\<close>

definition clip_index :: "nat \<Rightarrow> int \<Rightarrow> nat" where
  "clip_index len i = (if i < 0 then nat (int len + i) else min (nat i) len)"

definition py_slice :: "'a list \<Rightarrow> int \<Rightarrow> int \<Rightarrow> 'a list" where
  "py_slice xs start stop = (let b = clip_index (length xs) start; e = clip_index (length xs) stop
     in take (e - b) (drop b xs))"


section \<open>build\_kb\_text\<close>

text \<open>
  An uploaded file: its name and the text its reader returns for it, \<open>read_text_file(f)\<close>
  for \<open>.txt\<close> and \<open>.md\<close>, \<open>extract_pdf(f)\<close> for \<open>.pdf\<close> (the empty string when PyPDF2 is
  missing or fails). The decoders themselves are library code.
\<close>

record upload =
  name :: string
  ingested :: string

fun collect_texts :: "upload list \<Rightarrow> string list" where
  "collect_texts [] = []"
| "collect_texts (f # fs) = (let nm = py_lower (name f) in
     if py_endswith nm ''.txt'' \<or> py_endswith nm ''.md'' then ingested f # collect_texts fs
     else if py_endswith nm ''.pdf'' then
       (if ingested f \<noteq> [] then ingested f # collect_texts fs else collect_texts fs)
     else collect_texts fs)"

definition limit :: nat where
  "limit = 25000"

text \<open>The loop over \<open>chunks\<close> with its two variables \<open>out\<close> and \<open>size\<close> (here \<open>sz\<close>).\<close>

fun budget_loop :: "string list \<Rightarrow> nat \<Rightarrow> string list \<Rightarrow> string list" where
  "budget_loop out sz [] = out"
| "budget_loop out sz (c # cs) =
     (if sz + length c > limit then out else budget_loop (out @ [c]) (sz + length c) cs)"

text \<open>
  The splitter \<open>RecursiveCharacterTextSplitter(chunk_size=1200, chunk_overlap=150)\<close> belongs
  to a library; \<open>split_text\<close> stands for its method of that name.
\<close>

definition build_kb_text :: "(string \<Rightarrow> string list) \<Rightarrow> upload list \<Rightarrow> string \<Rightarrow> string" where
  "build_kb_text split_text files pasted_text =
     (let all_texts = collect_texts files @
            (if py_strip pasted_text \<noteq> [] then [py_strip pasted_text] else []);
          full = py_join [nl, nl] (filter (\<lambda>t. t \<noteq> []) all_texts)
      in if full = [] then []
         else py_join [nl, nl] (budget_loop [] 0 (split_text full)))"


text \<open>
  Modelled from the spec: the splitter itself (langchain's RecursiveCharacterTextSplitter)
  is not part of the repository. The spec has it prefer paragraph breaks, with a target
  chunk size of 1200 characters. \<open>split_paragraphs\<close> is what that strategy returns for a
  text whose paragraphs are each shorter than 1200 characters while no two neighbours fit
  into 1200 together: the text is cut at the blank lines and nowhere else, each piece is
  stripped, and empty pieces are dropped. It is used for such a text only.
\<close>

fun split_blank_lines :: "string \<Rightarrow> string list" where
  "split_blank_lines [] = [[]]"
| "split_blank_lines [c] = [[c]]"
| "split_blank_lines (c # d # cs) =
     (if c = nl \<and> d = nl then [] # split_blank_lines cs
      else (case split_blank_lines (d # cs) of
              [] \<Rightarrow> [[c]]
            | p # ps \<Rightarrow> (c # p) # ps))"

definition split_paragraphs :: "string \<Rightarrow> string list" where
  "split_paragraphs s = filter (\<lambda>p. p \<noteq> []) (map py_strip (split_blank_lines s))"

text \<open>A paragraph of 1190 letters.\<close>

definition para :: string where
  "para = replicate 1190 CHR ''a''"


section \<open>ask\_model\<close>

text \<open>
  The request handed to \<open>client.models.generate_content\<close>. The call either raises, and
  \<open>Inl e\<close> carries \<open>str(e)\<close>, or returns a response, and \<open>Inr t\<close> carries
  \<open>getattr(resp, "text", None)\<close>.
\<close>

record request =
  model :: string
  contents :: "(string \<times> string) list"
  temperature :: rat

type_synonym client = "request \<Rightarrow> string + string option"

definition ask_model :: "client \<Rightarrow> string \<Rightarrow> string \<Rightarrow> string \<Rightarrow> rat \<Rightarrow> string" where
  "ask_model client model_id system user temp =
     (case client \<lparr>model = model_id,
                   contents = [(''user'', ''SYSTEM:'' @ [nl] @ system), (''user'', user)],
                   temperature = temp\<rparr> of
        Inr t \<Rightarrow> py_strip (case t of None \<Rightarrow> [] | Some s \<Rightarrow> s)
      | Inl e \<Rightarrow> ''(Gagal memanggil model: '' @ e @ '')'')"


section \<open>JSON values and the conversions gen\_mcq applies\<close>

text \<open>
  The values \<open>json.loads\<close> returns. A Python float is a rational number, a NaN or an
  infinity; a dict is an association list in insertion order with distinct keys.
\<close>

datatype pyfloat = FNum rat | FNan | FPosInf | FNegInf

datatype json =
    JNull
  | JBool bool
  | JInt int
  | JFloat pyfloat
  | JStr string
  | JList "json list"
  | JDict "(string \<times> json) list"

text \<open>
  \<open>int(s)\<close> for a string. The whitespace \<open>int\<close> drops at both ends is its own set, not
  that of \<open>str.strip\<close>: the ASCII characters tab, line feed, vertical tab, form feed,
  carriage return and space, and above them the code points 133 and 160; the separators
  28 to 31 are kept and make the conversion fail. A sign may come first, then decimal
  digits, where single underscores may stand between digits. CPython refuses a text of
  more than 4300 digits (underscores not counted, leading zeros counted). Anything else
  raises ValueError (\<open>None\<close>).
\<close>

definition is_digit :: "char \<Rightarrow> bool" where
  "is_digit c = (let n = (of_char c :: nat) in 48 \<le> n \<and> n \<le> 57)"

definition digit_val :: "char \<Rightarrow> nat" where
  "digit_val c = of_char c - 48"

definition max_str_digits :: nat where
  "max_str_digits = 4300"

definition is_int_space :: "char \<Rightarrow> bool" where
  "is_int_space c = (let n = (of_char c :: nat) in (9 \<le> n \<and> n \<le> 13) \<or> n = 32 \<or> n = 133 \<or> n = 160)"

definition int_strip :: "string \<Rightarrow> string" where
  "int_strip s = rev (dropWhile is_int_space (rev (dropWhile is_int_space s)))"

fun int_digits :: "nat \<Rightarrow> string \<Rightarrow> nat option" where
  "int_digits acc [] = Some acc"
| "int_digits acc (c # cs) =
     (if is_digit c then int_digits (10 * acc + digit_val c) cs
      else if c = CHR ''_'' \<and> cs \<noteq> [] \<and> is_digit (hd cs) then int_digits acc cs
      else None)"

definition nat_of_str :: "string \<Rightarrow> nat option" where
  "nat_of_str s =
     (if s \<noteq> [] \<and> is_digit (hd s) \<and> length (filter is_digit s) \<le> max_str_digits
      then int_digits 0 s else None)"

definition int_of_str :: "string \<Rightarrow> int option" where
  "int_of_str s = (case int_strip s of
       [] \<Rightarrow> None
     | c # cs \<Rightarrow>
         if c = CHR ''-'' then map_option (\<lambda>n. - int n) (nat_of_str cs)
         else if c = CHR ''+'' then map_option int (nat_of_str cs)
         else map_option int (nat_of_str (c # cs)))"

text \<open>
  \<open>int(x)\<close> for a JSON value: an integer is itself, a bool is 0 or 1, a finite float is
  cut towards zero, a string is read as above; NaN and the infinities raise (ValueError,
  OverflowError), as do \<open>None\<close>, lists and dicts (TypeError).
\<close>

fun py_int :: "json \<Rightarrow> int option" where
  "py_int (JInt i) = Some i"
| "py_int (JBool b) = Some (if b then 1 else 0)"
| "py_int (JFloat (FNum r)) = Some (if 0 \<le> r then \<lfloor>r\<rfloor> else \<lceil>r\<rceil>)"
| "py_int (JFloat f) = None"
| "py_int (JStr s) = int_of_str s"
| "py_int JNull = None"
| "py_int (JList xs) = None"
| "py_int (JDict kvs) = None"

text \<open>
  \<open>for item in data\<close>: a list gives its elements, a dict its keys, a string its
  characters; every other value raises TypeError.
\<close>

fun py_iter :: "json \<Rightarrow> json list option" where
  "py_iter (JList xs) = Some xs"
| "py_iter (JDict kvs) = Some (map (\<lambda>kv. JStr (fst kv)) kvs)"
| "py_iter (JStr s) = Some (map (\<lambda>c. JStr [c]) s)"
| "py_iter v = None"


section \<open>gen\_mcq\<close>

record quiz_item =
  q :: json
  a :: "json list"
  key :: int

text \<open>The test of the \<open>if\<close> inside the loop.\<close>

fun item_ok :: "json \<Rightarrow> bool" where
  "item_ok (JDict kvs) =
     (map_of kvs ''q'' \<noteq> None \<and> map_of kvs ''a'' \<noteq> None \<and> map_of kvs ''key'' \<noteq> None \<and>
      (case map_of kvs ''a'' of Some (JList opts) \<Rightarrow> 4 \<le> length opts | _ \<Rightarrow> False))"
| "item_ok v = False"

text \<open>
  The value appended for an accepted item; \<open>None\<close> when \<open>int(item["key"])\<close> raises.
\<close>

fun make_item :: "json \<Rightarrow> quiz_item option" where
  "make_item (JDict kvs) =
     (case (map_of kvs ''q'', map_of kvs ''a'', map_of kvs ''key'') of
        (Some qv, Some (JList opts), Some kv) \<Rightarrow>
          map_option (\<lambda>k. \<lparr>q = qv, a = py_slice opts 0 4, key = k\<rparr>) (py_int kv)
      | _ \<Rightarrow> None)"
| "make_item v = None"

text \<open>
  The loop over \<open>data\<close>: \<open>Some valid\<close> when it runs through, \<open>None\<close> when an exception
  leaves it.
\<close>

fun collect_valid :: "json list \<Rightarrow> quiz_item list option" where
  "collect_valid [] = Some []"
| "collect_valid (item # rest) =
     (if item_ok item then
        (case make_item item of
           None \<Rightarrow> None
         | Some it \<Rightarrow> map_option ((#) it) (collect_valid rest))
      else collect_valid rest)"

text \<open>
  The \<open>try\<close> block of gen\_mcq, from the raw response on. \<open>loads\<close> stands for
  \<open>json.loads\<close>: \<open>Inl e\<close> when it raises, with the message \<open>e\<close>, else the value.
\<close>

definition json_span :: "string \<Rightarrow> string" where
  "json_span raw = py_slice raw (py_find raw CHR ''['') (py_rfind raw CHR '']'' + 1)"

definition mcq_of_raw :: "(string \<Rightarrow> string + json) \<Rightarrow> string \<Rightarrow> int \<Rightarrow> quiz_item list" where
  "mcq_of_raw loads raw n =
     (case loads (json_span raw) of
        Inl e \<Rightarrow> []
      | Inr data \<Rightarrow>
          (case py_iter data of
             None \<Rightarrow> []
           | Some items \<Rightarrow>
               (case collect_valid items of
                  None \<Rightarrow> []
                | Some valid \<Rightarrow> py_slice valid 0 n)))"

definition mcq_system :: string where
  \<open>mcq_system =
     ''Anda adalah asisten edukasi. Bangun 5 soal pilihan ganda (MCQ) dari konteks.'' @
     '' Jawab dalam Bahasa Indonesia semi-formal.'' @
     '' Format output harus JSON list of objects: '' @
     ''[{"q":"...","a":["A","B","C","D"],"key":0}, ...] '' @
     ''di mana 'key' adalah index jawaban benar (0..3). Jangan menambahkan penjelasan di luar JSON.''\<close>

definition mcq_user :: "string \<Rightarrow> int \<Rightarrow> string" where
  "mcq_user context n =
     ''Konteks:'' @ [nl] @ context @ [nl, nl] @ ''Buat '' @ str_int n @
     '' soal MCQ seperti spesifikasi di atas.''"

definition gen_mcq ::
  "(string \<Rightarrow> string + json) \<Rightarrow> client \<Rightarrow> string \<Rightarrow> string \<Rightarrow> int \<Rightarrow> quiz_item list" where
  "gen_mcq loads client model_id context n =
     mcq_of_raw loads (ask_model client model_id mcq_system (mcq_user context n) (2 / 10)) n"


section \<open>json.loads\<close>

text \<open>
  A model of the decoder of the standard library on the text model above, used where a
  response or a document is evaluated. The text is cut into tokens, the tokens are read by
  recursive descent. \<open>pf\<close> is the decoder's hook \<open>parse_float\<close>, Python's \<open>float\<close>: the
  value of a literal with a fraction or an exponent. An escape \<open>\uXXXX\<close> above \<open>00ff\<close>
  names a code point outside the text model and is refused here; the decoder's error
  messages are not modelled.
\<close>

datatype token =
    TLBrack | TRBrack | TLBrace | TRBrace | TComma | TColon
  | TStr string | TInt int | TFloat string
  | TTrue | TFalse | TNull | TNaN | TInfinity | TNegInfinity

definition bslash :: char where
  "bslash = CHR 0x5C"

definition is_json_ws :: "char \<Rightarrow> bool" where
  "is_json_ws c = (c = CHR '' '' \<or> c = CHR 0x09 \<or> c = CHR 0x0A \<or> c = CHR 0x0D)"

definition hex_val :: "char \<Rightarrow> nat option" where
  "hex_val c = (let n = (of_char c :: nat) in
     if 48 \<le> n \<and> n \<le> 57 then Some (n - 48)
     else if 97 \<le> n \<and> n \<le> 102 then Some (n - 87)
     else if 65 \<le> n \<and> n \<le> 70 then Some (n - 55)
     else None)"

fun hex4 :: "string \<Rightarrow> nat option" where
  "hex4 [c1, c2, c3, c4] =
     (case (hex_val c1, hex_val c2, hex_val c3, hex_val c4) of
        (Some x, Some y, Some z, Some w) \<Rightarrow> Some (((x * 16 + y) * 16 + z) * 16 + w)
      | _ \<Rightarrow> None)"
| "hex4 s = None"

definition unescape :: "char \<Rightarrow> char option" where
  "unescape e =
     (if e = dq \<or> e = bslash \<or> e = CHR ''/'' then Some e
      else if e = CHR ''b'' then Some (CHR 0x08)
      else if e = CHR ''f'' then Some (CHR 0x0C)
      else if e = CHR ''n'' then Some (CHR 0x0A)
      else if e = CHR ''r'' then Some (CHR 0x0D)
      else if e = CHR ''t'' then Some (CHR 0x09)
      else None)"

definition cons_str :: "char \<Rightarrow> (string \<times> string) option \<Rightarrow> (string \<times> string) option" where
  "cons_str c r = map_option (\<lambda>(s, rest). (c # s, rest)) r"

function scan_string :: "string \<Rightarrow> (string \<times> string) option" where
  "scan_string [] = None"
| "scan_string (c # cs) =
     (if c = dq then Some ([], cs)
      else if c = bslash then
        (case cs of
           [] \<Rightarrow> None
         | e # es \<Rightarrow>
             if e = CHR ''u'' then
               (case hex4 (take 4 es) of
                  None \<Rightarrow> None
                | Some n \<Rightarrow> if n < 256 then cons_str (char_of n) (scan_string (drop 4 es)) else None)
             else
               (case unescape e of
                  None \<Rightarrow> None
                | Some x \<Rightarrow> cons_str x (scan_string es)))
      else if (of_char c :: nat) < 32 then None
      else cons_str c (scan_string cs))"
  by pat_completeness auto
termination
  by (relation "measure length") auto


text \<open>What is left after a string or a number is shorter than what was scanned.\<close>

lemma scan_string_shorter: "scan_string s = Some (x, r) \<Longrightarrow> length r < length s"
proof (induction s arbitrary: x r rule: scan_string.induct)
  case 1
  then show ?case by simp
next
  case (2 c cs)
  show ?case
  proof (cases "c = dq")
    case True
    with "2.prems" show ?thesis by simp
  next
    case notdq: False
    show ?thesis
    proof (cases "c = bslash")
      case True
      with notdq "2.prems" obtain e es where cs: "cs = e # es"
        by (cases cs) auto
      show ?thesis
      proof (cases "e = CHR ''u''")
        case eu: True
        with True notdq cs "2.prems" obtain n y where
          h: "hex4 (take 4 es) = Some n" "n < 256" and
          r: "scan_string (drop 4 es) = Some (y, r)"
          by (auto simp: cons_str_def split: option.splits if_splits)
        from "2.IH"(1) [OF notdq True cs eu h(1) h(2) r] show ?thesis
          using cs by simp
      next
        case ne: False
        with True notdq cs "2.prems" obtain z y where
          u: "unescape e = Some z" and r: "scan_string es = Some (y, r)"
          by (auto simp: cons_str_def split: option.splits if_splits)
        from "2.IH"(2) [OF notdq True cs ne u r] show ?thesis
          using cs by simp
      qed
    next
      case False
      with notdq "2.prems" obtain y where
        c: "\<not> (of_char c :: nat) < 32" and r: "scan_string cs = Some (y, r)"
        by (auto simp: cons_str_def split: option.splits if_splits)
      from "2.IH"(3) [OF notdq False c r] show ?thesis by simp
    qed
  qed
qed

text \<open>
  The number pattern \<open>(-?(?:0|[1-9][0-9]*))(\.[0-9]+)?([eE][-+]?[0-9]+)?\<close>. A literal
  without fraction and exponent is converted by \<open>int\<close>, which refuses more than 4300
  digits.
\<close>

definition scan_int_part :: "string \<Rightarrow> (string \<times> string) option" where
  "scan_int_part s = (case s of
       [] \<Rightarrow> None
     | c # cs \<Rightarrow>
         if c = CHR ''0'' then Some ([c], cs)
         else if is_digit c then Some (c # takeWhile is_digit cs, dropWhile is_digit cs)
         else None)"

definition scan_frac :: "string \<Rightarrow> string \<times> string" where
  "scan_frac s = (case s of
       c # d # cs \<Rightarrow>
         if c = CHR ''.'' \<and> is_digit d
         then (c # d # takeWhile is_digit cs, dropWhile is_digit cs) else ([], s)
     | _ \<Rightarrow> ([], s))"

definition scan_exp :: "string \<Rightarrow> string \<times> string" where
  "scan_exp s = (case s of
       [] \<Rightarrow> ([], s)
     | e # cs \<Rightarrow>
         if e = CHR ''e'' \<or> e = CHR ''E'' then
           (case cs of
              [] \<Rightarrow> ([], s)
            | d # ds \<Rightarrow>
                if is_digit d then (e # d # takeWhile is_digit ds, dropWhile is_digit ds)
                else if (d = CHR ''-'' \<or> d = CHR ''+'') \<and> ds \<noteq> [] \<and> is_digit (hd ds)
                then (e # d # takeWhile is_digit ds, dropWhile is_digit ds)
                else ([], s))
         else ([], s))"

definition scan_number :: "string \<Rightarrow> (token \<times> string) option" where
  "scan_number s =
     (let (sign, s1) = (if s \<noteq> [] \<and> hd s = CHR ''-'' then (''-'', tl s) else ([], s)) in
      case scan_int_part s1 of
        None \<Rightarrow> None
      | Some (ip, s2) \<Rightarrow>
          (let (fr, s3) = scan_frac s2; (ex, s4) = scan_exp s3 in
           if fr = [] \<and> ex = [] then
             (if max_str_digits < length ip then None
              else case int_digits 0 ip of
                None \<Rightarrow> None
              | Some m \<Rightarrow> Some (TInt (if sign = [] then int m else - int m), s4))
           else Some (TFloat (sign @ ip @ fr @ ex), s4)))"

lemma scan_int_part_shorter: "scan_int_part s = Some (ip, r) \<Longrightarrow> length r < length s"
  by (auto simp: scan_int_part_def length_dropWhile_le less_Suc_eq_le
      split: list.splits if_splits)

lemma scan_frac_shorter: "scan_frac s = (fr, r) \<Longrightarrow> length r \<le> length s"
  by (auto simp: scan_frac_def length_dropWhile_le le_SucI split: list.splits if_splits)

lemma scan_exp_shorter: "scan_exp s = (ex, r) \<Longrightarrow> length r \<le> length s"
  by (auto simp: scan_exp_def length_dropWhile_le le_SucI split: list.splits if_splits)

lemma scan_number_shorter: "scan_number s = Some (t, r) \<Longrightarrow> length r < length s"
proof -
  assume h: "scan_number s = Some (t, r)"
  define s1 where "s1 = (if s \<noteq> [] \<and> hd s = CHR ''-'' then tl s else s)"
  have l1: "length s1 \<le> length s" by (simp add: s1_def)
  from h obtain ip s2 where ip: "scan_int_part s1 = Some (ip, s2)"
    by (auto simp: scan_number_def s1_def split: option.splits if_splits)
  obtain fr s3 where fr: "scan_frac s2 = (fr, s3)" by (cases "scan_frac s2")
  obtain ex s4 where ex: "scan_exp s3 = (ex, s4)" by (cases "scan_exp s3")
  from h ip fr ex have "r = s4"
    by (auto simp: scan_number_def s1_def split: option.splits if_splits)
  with scan_int_part_shorter [OF ip] scan_frac_shorter [OF fr] scan_exp_shorter [OF ex] l1
  show ?thesis by simp
qed

definition cons_tok :: "token \<Rightarrow> token list option \<Rightarrow> token list option" where
  "cons_tok t r = map_option ((#) t) r"

function tokenize :: "string \<Rightarrow> token list option" where
  "tokenize [] = Some []"
| "tokenize (c # cs) =
     (if is_json_ws c then tokenize cs
      else if c = CHR ''['' then cons_tok TLBrack (tokenize cs)
      else if c = CHR '']'' then cons_tok TRBrack (tokenize cs)
      else if c = CHR ''{'' then cons_tok TLBrace (tokenize cs)
      else if c = CHR ''}'' then cons_tok TRBrace (tokenize cs)
      else if c = CHR '','' then cons_tok TComma (tokenize cs)
      else if c = CHR '':'' then cons_tok TColon (tokenize cs)
      else if c = dq then
        (case scan_string cs of
           None \<Rightarrow> None
         | Some (s, r) \<Rightarrow> cons_tok (TStr s) (tokenize r))
      else if take 4 (c # cs) = ''null'' then cons_tok TNull (tokenize (drop 3 cs))
      else if take 4 (c # cs) = ''true'' then cons_tok TTrue (tokenize (drop 3 cs))
      else if take 5 (c # cs) = ''false'' then cons_tok TFalse (tokenize (drop 4 cs))
      else if take 3 (c # cs) = ''NaN'' then cons_tok TNaN (tokenize (drop 2 cs))
      else if take 8 (c # cs) = ''Infinity'' then cons_tok TInfinity (tokenize (drop 7 cs))
      else if take 9 (c # cs) = ''-Infinity'' then cons_tok TNegInfinity (tokenize (drop 8 cs))
      else
        (case scan_number (c # cs) of
           None \<Rightarrow> None
         | Some (t, r) \<Rightarrow> cons_tok t (tokenize r)))"
  by pat_completeness auto
termination
proof (relation "measure length", goal_cases)
  case 1
  then show ?case by simp
next
  case (9 c cs x2 x y)
  then show ?case using scan_string_shorter [of cs x y] by simp
next
  case (16 c cs x2 x y)
  then show ?case using scan_number_shorter [of "c # cs" x y] by simp
qed simp_all

text \<open>A dict built from pairs: a later pair with a key that is present replaces its value.\<close>

definition dict_set :: "(string \<times> json) list \<Rightarrow> string \<Rightarrow> json \<Rightarrow> (string \<times> json) list" where
  "dict_set d k v =
     (if k \<in> fst ` set d then map (\<lambda>kv. if fst kv = k then (k, v) else kv) d else d @ [(k, v)])"

definition dict_of_pairs :: "(string \<times> json) list \<Rightarrow> (string \<times> json) list" where
  "dict_of_pairs kvs = foldl (\<lambda>d kv. dict_set d (fst kv) (snd kv)) [] kvs"

fun parse_value :: "(string \<Rightarrow> pyfloat) \<Rightarrow> nat \<Rightarrow> token list \<Rightarrow> (json \<times> token list) option"
and parse_elems :: "(string \<Rightarrow> pyfloat) \<Rightarrow> nat \<Rightarrow> token list \<Rightarrow> (json list \<times> token list) option"
and parse_members ::
  "(string \<Rightarrow> pyfloat) \<Rightarrow> nat \<Rightarrow> token list \<Rightarrow> ((string \<times> json) list \<times> token list) option"
where
  "parse_value pf 0 ts = None"
| "parse_value pf (Suc n) [] = None"
| "parse_value pf (Suc n) (t # ts) =
     (case t of
        TNull \<Rightarrow> Some (JNull, ts)
      | TTrue \<Rightarrow> Some (JBool True, ts)
      | TFalse \<Rightarrow> Some (JBool False, ts)
      | TInt i \<Rightarrow> Some (JInt i, ts)
      | TFloat lit \<Rightarrow> Some (JFloat (pf lit), ts)
      | TNaN \<Rightarrow> Some (JFloat FNan, ts)
      | TInfinity \<Rightarrow> Some (JFloat FPosInf, ts)
      | TNegInfinity \<Rightarrow> Some (JFloat FNegInf, ts)
      | TStr s \<Rightarrow> Some (JStr s, ts)
      | TLBrack \<Rightarrow>
          (case ts of
             TRBrack # r \<Rightarrow> Some (JList [], r)
           | _ \<Rightarrow> map_option (\<lambda>(vs, r). (JList vs, r)) (parse_elems pf n ts))
      | TLBrace \<Rightarrow>
          (case ts of
             TRBrace # r \<Rightarrow> Some (JDict [], r)
           | _ \<Rightarrow> map_option (\<lambda>(kvs, r). (JDict (dict_of_pairs kvs), r)) (parse_members pf n ts))
      | _ \<Rightarrow> None)"
| "parse_elems pf 0 ts = None"
| "parse_elems pf (Suc n) ts =
     (case parse_value pf n ts of
        None \<Rightarrow> None
      | Some (v, r) \<Rightarrow>
          (case r of
             TRBrack # r' \<Rightarrow> Some ([v], r')
           | TComma # r' \<Rightarrow> map_option (\<lambda>(vs, r''). (v # vs, r'')) (parse_elems pf n r')
           | _ \<Rightarrow> None))"
| "parse_members pf 0 ts = None"
| "parse_members pf (Suc n) ts =
     (case ts of
        TStr k # TColon # r \<Rightarrow>
          (case parse_value pf n r of
             None \<Rightarrow> None
           | Some (v, r') \<Rightarrow>
               (case r' of
                  TRBrace # r'' \<Rightarrow> Some ([(k, v)], r'')
                | TComma # r'' \<Rightarrow> map_option (\<lambda>(kvs, r3). ((k, v) # kvs, r3)) (parse_members pf n r'')
                | _ \<Rightarrow> None))
      | _ \<Rightarrow> None)"

definition json_parse :: "(string \<Rightarrow> pyfloat) \<Rightarrow> string \<Rightarrow> json option" where
  "json_parse pf s =
     (case tokenize s of
        None \<Rightarrow> None
      | Some ts \<Rightarrow>
          (case parse_value pf (Suc (length ts)) ts of
             Some (v, []) \<Rightarrow> Some v
           | _ \<Rightarrow> None))"

definition json_loads :: "(string \<Rightarrow> pyfloat) \<Rightarrow> string \<Rightarrow> string + json" where
  "json_loads pf s = (case json_parse pf s of None \<Rightarrow> Inl ''JSONDecodeError'' | Some v \<Rightarrow> Inr v)"


text \<open>
  Stands for \<open>parse_float\<close> where a text without a float literal is evaluated; the
  decoder never calls it there.
\<close>

definition no_floats :: "string \<Rightarrow> pyfloat" where
  "no_floats lit = FNan"


section \<open>json.dumps with indent=2 and ensure\_ascii=False\<close>











section \<open>The session, its export and its import\<close>

text \<open>
  The entries of \<open>st.session_state\<close> the export and the import handlers touch. An import
  can store any JSON value, so the entries are JSON values; \<open>last_quiz_result\<close> is \<open>None\<close>
  while the key is missing. Further entries live in the record's extension.
\<close>

record session =
  messages :: json
  kb_text :: json
  last_quiz_result :: "json option"



text \<open>
  \<open>data.decode("utf-8")\<close> on the text model: a byte below 128 is its character, the
  two-byte forms give the code points from 128 to 255; any other byte sequence is
  refused, as malformed or as a code point outside the text model.
\<close>

fun utf8_decode :: "char list \<Rightarrow> string + string" where
  "utf8_decode [] = Inr []"
| "utf8_decode [b] = (if (of_char b :: nat) < 128 then Inr [b] else Inl ''UnicodeDecodeError'')"
| "utf8_decode (b # c # bs) =
     (if (of_char b :: nat) < 128 then
        (case utf8_decode (c # bs) of Inl e \<Rightarrow> Inl e | Inr t \<Rightarrow> Inr (b # t))
      else if (of_char b = (194 :: nat) \<or> of_char b = (195 :: nat)) \<and>
              128 \<le> (of_char c :: nat) \<and> (of_char c :: nat) < 192 then
        (case utf8_decode bs of
           Inl e \<Rightarrow> Inl e
         | Inr t \<Rightarrow> Inr (char_of ((of_char b - 192) * 64 + (of_char c - 128 :: nat)) # t))
      else Inl ''UnicodeDecodeError'')"

text \<open>Truth value of a JSON value, as \<open>if x:\<close> tests it.\<close>

fun truthy :: "json \<Rightarrow> bool" where
  "truthy JNull = False"
| "truthy (JBool b) = b"
| "truthy (JInt i) = (i \<noteq> 0)"
| "truthy (JFloat f) = (f \<noteq> FNum 0)"
| "truthy (JStr s) = (s \<noteq> [])"
| "truthy (JList vs) = (vs \<noteq> [])"
| "truthy (JDict kvs) = (kvs \<noteq> [])"

definition dict_get :: "(string \<times> json) list \<Rightarrow> string \<Rightarrow> json \<Rightarrow> json" where
  "dict_get kvs k d = (case map_of kvs k of None \<Rightarrow> d | Some v \<Rightarrow> v)"

text \<open>The name Python prints for the type of a value in an AttributeError.\<close>

fun type_name :: "json \<Rightarrow> string" where
  "type_name JNull = ''NoneType''"
| "type_name (JBool b) = ''bool''"
| "type_name (JInt i) = ''int''"
| "type_name (JFloat f) = ''float''"
| "type_name (JStr s) = ''str''"
| "type_name (JList vs) = ''list''"
| "type_name (JDict kvs) = ''dict''"

datatype notice = Success string | Failure string

text \<open>
  The import handler on an uploaded document \<open>doc\<close>. \<open>decode\<close> and \<open>loads\<close> stand for
  \<open>bytes.decode("utf-8")\<close> and \<open>json.loads\<close>, with \<open>Inl e\<close> for an exception of message
  \<open>e\<close>. The assignments run in the order of the source; an exception stops the handler
  in the state reached so far, and \<open>st.error\<close> shows the message.
\<close>

definition import_json ::
  "(char list \<Rightarrow> string + string) \<Rightarrow> (string \<Rightarrow> string + json) \<Rightarrow> char list \<Rightarrow>
   'x session_scheme \<Rightarrow> 'x session_scheme \<times> notice" where
  "import_json decode loads doc s =
     (case decode doc of
        Inl e \<Rightarrow> (s, Failure (''Gagal import JSON: '' @ e))
      | Inr text \<Rightarrow>
          (case loads text of
             Inl e \<Rightarrow> (s, Failure (''Gagal import JSON: '' @ e))
           | Inr (JDict kvs) \<Rightarrow>
               (let s1 = s\<lparr>messages := dict_get kvs ''messages'' (JList [])\<rparr>;
                    s2 = s1\<lparr>kb_text := dict_get kvs ''kb_text'' (JStr [])\<rparr>
                in if truthy (dict_get kvs ''last_quiz_result'' JNull) then
                     (case map_of kvs ''last_quiz_result'' of
                        None \<Rightarrow> (s2, Failure (''Gagal import JSON: '' @ [sq] @ ''last_quiz_result'' @ [sq]))
                      | Some v \<Rightarrow>
                          (s2\<lparr>last_quiz_result := Some v\<rparr>,
                           Success ''Berhasil di-import. Buka tab Chat/Quiz untuk melihat hasilnya.''))
                   else (s2, Success ''Berhasil di-import. Buka tab Chat/Quiz untuk melihat hasilnya.''))
           | Inr data \<Rightarrow>
               (s, Failure (''Gagal import JSON: '' @ [sq] @ type_name data @ [sq] @
                            '' object has no attribute '' @ [sq] @ ''get'' @ [sq]))))"


section \<open>Values that are written and read back\<close>







section \<open>Properties of make\_csv\_bytes\<close>

lemma utf8_encode_ascii:
  "\<forall>c \<in> set s. (of_char c :: nat) < 128 \<Longrightarrow> utf8_encode s = s"
  by (induction s) (auto simp: utf8_encode_def utf8_char_def)

lemma double_quotes_plain: "dq \<notin> set v \<Longrightarrow> double_quotes v = v"
  by (induction v) (auto simp: double_quotes_def)

lemma comma_in_double_quotes: "CHR '','' \<in> set (double_quotes v) \<longleftrightarrow> CHR '','' \<in> set v"
  by (induction v) (auto simp: double_quotes_def dq_def)

lemma csv_value_comma_wrapped:
  "CHR '','' \<in> set (py_str x) \<Longrightarrow> csv_value x = [dq] @ double_quotes (py_str x) @ [dq]"
  by (simp add: csv_value_def comma_in_double_quotes)

text \<open>
  C8 (make\_csv\_bytes escapes commas and double quotes). A value with a comma is
  wrapped in double quotes (\<open>csv_value_comma_wrapped\<close>), but a value with a double quote
  and neither comma nor newline is not: for the single row \<open>{"text": 'say "hi"'}\<close> the
  function emits the line \<open>say ""hi""\<close>, the quotes doubled and the field left unwrapped.
\<close>

theorem make_csv_bytes_quote_not_wrapped:
  \<open>make_csv_bytes [[(''text'', PStr ''say "hi"'')]] = ''text'' @ [nl] @ ''say ""hi""''\<close>
  by (simp add: make_csv_bytes_def csv_lines_def csv_vals_def csv_value_def row_get_def
      double_quotes_def utf8_encode_def utf8_char_def dq_def nl_def)

lemma csv_vals_length: "length (csv_vals cols r) = length cols"
  by (simp add: csv_vals_def)

lemma row_get_missing: "c \<notin> fst ` set r \<Longrightarrow> row_get r c d = d"
proof -
  assume "c \<notin> fst ` set r"
  then have "map_of r c = None" by (simp add: map_of_eq_None_iff)
  then show ?thesis by (simp add: row_get_def)
qed

lemma csv_value_empty: "csv_value (PStr '''') = ''''"
  by (simp add: csv_value_def double_quotes_def)

text \<open>
  C10 (make\_csv\_bytes takes its columns from the first record). The output of a
  non-empty sequence is the header of the first record's keys followed by one line per
  record, each built from the first record's keys only. A record without one of these
  keys gives the empty string in that column; two records that agree on the first
  record's keys give the same line, so further keys of a later record never reach the
  output. The function is total: no shape of the later records raises.
\<close>

theorem make_csv_bytes_columns_of_first_record:
  "make_csv_bytes (r0 # rs) =
     utf8_encode (py_join [nl]
       (py_join '','' (map fst r0) # map (\<lambda>r. py_join '','' (csv_vals (map fst r0) r)) (r0 # rs)))
   \<and> length (csv_vals (map fst r0) r) = length r0
   \<and> (\<forall>i < length r0. fst (r0 ! i) \<notin> fst ` set r \<longrightarrow> csv_vals (map fst r0) r ! i = '''')
   \<and> (\<forall>r'. (\<forall>c \<in> fst ` set r0. map_of r' c = map_of r c) \<longrightarrow>
          csv_vals (map fst r0) r' = csv_vals (map fst r0) r)"
proof (intro conjI allI impI)
  show "make_csv_bytes (r0 # rs) =
     utf8_encode (py_join [nl]
       (py_join '','' (map fst r0) # map (\<lambda>r. py_join '','' (csv_vals (map fst r0) r)) (r0 # rs)))"
    by (simp add: make_csv_bytes_def csv_lines_def Let_def del: py_join.simps)
next
  show "length (csv_vals (map fst r0) r) = length r0"
    by (simp add: csv_vals_length)
next
  fix i assume "i < length r0" "fst (r0 ! i) \<notin> fst ` set r"
  then show "csv_vals (map fst r0) r ! i = ''''"
    by (simp add: csv_vals_def row_get_missing csv_value_empty)
next
  fix r' assume "\<forall>c \<in> fst ` set r0. map_of r' c = map_of r c"
  then show "csv_vals (map fst r0) r' = csv_vals (map fst r0) r"
    by (simp add: csv_vals_def row_get_def)
qed

theorem make_csv_bytes_columns_of_first_record_witness:
  "csv_vals [''a'', ''b''] [(''b'', PStr ''p,q''), (''z'', PBool True)] ! 0 = [] \<and>
   csv_vals [''a'', ''b''] [(''b'', PStr ''p,q'')] =
     csv_vals [''a'', ''b''] [(''b'', PStr ''p,q''), (''z'', PBool True)]"
proof -
  let ?first = "[(''a'', PStr ''x''), (''b'', PInt 12)]"
  let ?later = "[(''b'', PStr ''p,q''), (''z'', PBool True)]"
  note t = make_csv_bytes_columns_of_first_record [of ?first "[?later]" ?later]
  have h0: "0 < length ?first" by simp
  have h1: "fst (?first ! 0) \<notin> fst ` set ?later" by simp
  have h2: "\<forall>c \<in> fst ` set ?first. map_of [(''b'', PStr ''p,q'')] c = map_of ?later c" by simp
  note c1 = t [THEN conjunct2, THEN conjunct2, THEN conjunct1, rule_format, OF h0 h1]
  note c2 = t [THEN conjunct2, THEN conjunct2, THEN conjunct2, THEN spec, THEN mp, OF h2]
  have m: "map fst ?first = [''a'', ''b'']" by simp
  from c1 c2 show ?thesis unfolding m by (intro conjI)
qed


section \<open>Properties of gen\_mcq and ask\_model\<close>

section \<open>Slices\<close>

lemma py_slice_take: "0 \<le> n \<Longrightarrow> py_slice xs 0 n = take (nat n) xs"
  by (simp add: py_slice_def clip_index_def Let_def min_def)

lemma py_slice_subset: "set (py_slice xs i j) \<subseteq> set xs"
proof -
  have "set (py_slice xs i j) \<subseteq> set (drop (clip_index (length xs) i) xs)"
    unfolding py_slice_def Let_def by (rule set_take_subset)
  also have "\<dots> \<subseteq> set xs" by (rule set_drop_subset)
  finally show ?thesis .
qed

lemma py_slice_nil: "py_slice [] i j = []"
  by (simp add: py_slice_def)

lemma length_py_slice_upto: "0 \<le> n \<Longrightarrow> int (length (py_slice xs 0 n)) \<le> n"
  by (simp add: py_slice_take)

section \<open>The loop of gen\_mcq\<close>

lemma make_item_options:
  "item_ok item \<Longrightarrow> make_item item = Some it \<Longrightarrow> length (a it) = 4"
proof (cases item)
  case (JDict kvs)
  assume ok: "item_ok item" and mk: "make_item item = Some it"
  from ok JDict obtain opts where o: "map_of kvs ''a'' = Some (JList opts)" "4 \<le> length opts"
    by (auto split: option.splits json.splits)
  from mk JDict o obtain qv kv k where "it = \<lparr>q = qv, a = py_slice opts 0 4, key = k\<rparr>"
    by (auto split: option.splits)
  with o(2) show ?thesis by (simp add: py_slice_take)
qed auto

lemma collect_valid_options:
  "collect_valid items = Some valid \<Longrightarrow> \<forall>it \<in> set valid. length (a it) = 4"
proof (induction items arbitrary: valid)
  case Nil
  then show ?case by simp
next
  case (Cons item rest)
  show ?case
  proof (cases "item_ok item")
    case True
    with Cons.prems obtain it v' where
      mk: "make_item item = Some it" and r: "collect_valid rest = Some v'" and v: "valid = it # v'"
      by (auto split: option.splits)
    from make_item_options [OF True mk] Cons.IH [OF r] v show ?thesis by simp
  next
    case False
    with Cons.prems Cons.IH show ?thesis by simp
  qed
qed

lemma mcq_of_raw_cases:
  "mcq_of_raw loads raw n = [] \<or>
   (\<exists>data items valid. loads (json_span raw) = Inr data \<and> py_iter data = Some items \<and>
      collect_valid items = Some valid \<and> mcq_of_raw loads raw n = py_slice valid 0 n)"
  by (auto simp: mcq_of_raw_def split: sum.splits option.splits)

lemma mcq_of_raw_options: "\<forall>it \<in> set (mcq_of_raw loads raw n). length (a it) = 4"
proof -
  from mcq_of_raw_cases [of loads raw n] show ?thesis
  proof
    assume "mcq_of_raw loads raw n = []"
    then show ?thesis by simp
  next
    assume "\<exists>data items valid. loads (json_span raw) = Inr data \<and> py_iter data = Some items \<and>
      collect_valid items = Some valid \<and> mcq_of_raw loads raw n = py_slice valid 0 n"
    then obtain items valid where
      c: "collect_valid items = Some valid" and m: "mcq_of_raw loads raw n = py_slice valid 0 n"
      by blast
    from collect_valid_options [OF c] py_slice_subset [of valid 0 n] m show ?thesis by auto
  qed
qed

lemma mcq_of_raw_count: "0 \<le> n \<Longrightarrow> int (length (mcq_of_raw loads raw n)) \<le> n"
proof -
  assume n: "0 \<le> n"
  from mcq_of_raw_cases [of loads raw n] show ?thesis
  proof
    assume "mcq_of_raw loads raw n = []"
    with n show ?thesis by simp
  next
    assume "\<exists>data items valid. loads (json_span raw) = Inr data \<and> py_iter data = Some items \<and>
      collect_valid items = Some valid \<and> mcq_of_raw loads raw n = py_slice valid 0 n"
    then obtain valid where "mcq_of_raw loads raw n = py_slice valid 0 n" by blast
    with length_py_slice_upto [OF n, of valid] show ?thesis by simp
  qed
qed

text \<open>
  C2, as amended (the count and the shape of the items gen\_mcq returns). For a requested
  count \<open>n\<close> that is not negative, gen\_mcq returns at most \<open>n\<close> items; every item it
  returns has exactly 4 options, and its \<open>key\<close> is an integer (the type of the field).
  The options are the JSON values the model sent, strings or not. Both for the \<open>try\<close>
  block on every raw response and for gen\_mcq with every client.
\<close>

theorem gen_mcq_count_and_options:
  "0 \<le> n \<Longrightarrow>
     int (length (mcq_of_raw loads raw n)) \<le> n \<and>
     (\<forall>it \<in> set (mcq_of_raw loads raw n). length (a it) = 4) \<and>
     int (length (gen_mcq loads client model_id context n)) \<le> n \<and>
     (\<forall>it \<in> set (gen_mcq loads client model_id context n). length (a it) = 4)"
  unfolding gen_mcq_def
  using mcq_of_raw_count mcq_of_raw_options by blast

section \<open>find, rfind and the span between the brackets\<close>

lemma py_find_absent: "c \<notin> set s \<Longrightarrow> py_find s c = -1"
  by (induction s) auto

lemma py_rfind_absent: "c \<notin> set s \<Longrightarrow> py_rfind s c = -1"
  by (induction s) auto

lemma py_rfind_range: "-1 \<le> py_rfind s c \<and> py_rfind s c < int (length s)"
  by (induction s) (auto simp: Let_def)

lemma py_rfind_hit: "0 \<le> py_rfind s c \<Longrightarrow> s ! nat (py_rfind s c) = c"
proof (induction s)
  case Nil
  then show ?case by simp
next
  case (Cons x xs)
  show ?case
  proof (cases "0 \<le> py_rfind xs c")
    case True
    with Cons.IH have "xs ! nat (py_rfind xs c) = c" by simp
    with True show ?thesis by (simp add: Let_def nat_add_distrib)
  next
    case False
    with Cons.prems show ?thesis by (simp add: Let_def split: if_splits)
  qed
qed

lemma py_find_first: "c \<notin> set pre \<Longrightarrow> py_find (pre @ c # rest) c = int (length pre)"
  by (induction pre) (auto simp: Let_def)

lemma py_rfind_last: "c \<notin> set post \<Longrightarrow> py_rfind (xs @ c # post) c = int (length xs)"
  by (induction xs) (auto simp: Let_def py_rfind_absent)

lemma clip_index_nat: "clip_index len (int k) = min k len"
  by (simp add: clip_index_def)

lemma json_span_brackets:
  assumes "CHR ''['' \<notin> set pre" and "CHR '']'' \<notin> set post"
  shows "json_span (pre @ ''['' @ mid @ '']'' @ post) = ''['' @ mid @ '']''"
proof -
  let ?raw = "pre @ ''['' @ mid @ '']'' @ post"
  have f: "py_find ?raw CHR ''['' = int (length pre)"
    using py_find_first [OF assms(1), of "mid @ '']'' @ post"] by simp
  have "py_rfind ((pre @ ''['' @ mid) @ CHR '']'' # post) CHR '']'' = int (length (pre @ ''['' @ mid))"
    by (rule py_rfind_last [OF assms(2)])
  then have r: "py_rfind ?raw CHR '']'' + 1 = int (length pre + length mid + 2)" by simp
  have b: "clip_index (length ?raw) (int (length pre)) = length pre"
    by (simp add: clip_index_nat)
  have e: "clip_index (length ?raw) (int (length pre + length mid + 2)) = length pre + length mid + 2"
    unfolding clip_index_nat by simp
  have "json_span ?raw = take (length pre + length mid + 2 - length pre) (drop (length pre) ?raw)"
    unfolding json_span_def py_slice_def Let_def f r b e ..
  then show ?thesis by simp
qed

lemma json_span_no_open: "CHR ''['' \<notin> set raw \<Longrightarrow> json_span raw = [] \<or> json_span raw = '']''"
proof -
  assume "CHR ''['' \<notin> set raw"
  then have f: "py_find raw CHR ''['' = -1" by (rule py_find_absent)
  let ?i = "py_rfind raw CHR '']''"
  from py_rfind_range [of raw "CHR '']''"] have rg: "-1 \<le> ?i" "?i < int (length raw)" by auto
  have b: "clip_index (length raw) (-1) = length raw - 1"
    by (simp add: clip_index_def nat_diff_distrib')
  from rg have "nat (?i + 1) \<le> length raw" by linarith
  with rg have e: "clip_index (length raw) (?i + 1) = nat (?i + 1)"
    by (simp add: clip_index_def min_def)
  have span: "json_span raw = take (nat (?i + 1) - (length raw - 1)) (drop (length raw - 1) raw)"
    unfolding json_span_def py_slice_def Let_def f b e ..
  show ?thesis
  proof (cases "?i + 1 = int (length raw) \<and> raw \<noteq> []")
    case True
    then have pos: "0 < length raw" by simp
    with True have i: "nat ?i = length raw - 1" "0 \<le> ?i" by linarith+
    from py_rfind_hit [OF i(2)] i(1) True have l: "last raw = CHR '']''"
      by (simp add: last_conv_nth)
    from True pos have "nat (?i + 1) - (length raw - 1) = 1" by linarith
    with span have "json_span raw = take 1 (drop (length raw - 1) raw)" by simp
    also have "\<dots> = [last raw]" using True
      by (cases raw rule: rev_cases) auto
    finally show ?thesis using l by simp
  next
    case False
    show ?thesis
    proof (cases "raw = []")
      case True
      then show ?thesis by (simp add: json_span_def py_slice_def)
    next
      case ne: False
      with False rg have "nat (?i + 1) - (length raw - 1) = 0" by linarith
      with span show ?thesis by simp
    qed
  qed
qed

lemma json_span_no_close: "CHR '']'' \<notin> set raw \<Longrightarrow> json_span raw = []"
  by (simp add: json_span_def py_slice_def py_rfind_absent clip_index_def)

section \<open>Responses without a JSON array\<close>

lemma collect_valid_none_ok: "\<forall>x \<in> set items. \<not> item_ok x \<Longrightarrow> collect_valid items = Some []"
  by (induction items) auto

lemma mcq_of_raw_not_list:
  assumes "\<forall>xs. loads (json_span raw) \<noteq> Inr (JList xs)"
  shows "mcq_of_raw loads raw n = []"
proof (cases "loads (json_span raw)")
  case (Inl e)
  then show ?thesis by (simp add: mcq_of_raw_def)
next
  case (Inr data)
  show ?thesis
  proof (cases data)
    case (JList xs)
    with Inr assms show ?thesis by simp
  next
    case (JDict kvs)
    have "collect_valid (map (\<lambda>kv. JStr (fst kv)) kvs) = Some []"
      by (rule collect_valid_none_ok) auto
    with Inr JDict show ?thesis by (simp add: mcq_of_raw_def py_slice_nil)
  next
    case (JStr s)
    have "collect_valid (map (\<lambda>c. JStr [c]) s) = Some []"
      by (rule collect_valid_none_ok) auto
    with Inr JStr show ?thesis by (simp add: mcq_of_raw_def py_slice_nil)
  qed (simp_all add: Inr mcq_of_raw_def)
qed

lemma json_loads_empty: "json_loads pf [] = Inl ''JSONDecodeError''"
  by (simp add: json_loads_def json_parse_def)

lemma json_loads_close: "json_loads pf '']'' = Inl ''JSONDecodeError''"
  by (simp add: json_loads_def json_parse_def is_json_ws_def cons_tok_def)

lemma mcq_of_raw_no_brackets:
  assumes "CHR ''['' \<notin> set raw \<or> CHR '']'' \<notin> set raw"
  shows "mcq_of_raw (json_loads pf) raw n = []"
proof -
  from assms json_span_no_open [of raw] json_span_no_close [of raw]
  have "json_span raw = [] \<or> json_span raw = '']''" by blast
  then have "json_loads pf (json_span raw) = Inl ''JSONDecodeError''"
    using json_loads_empty json_loads_close by metis
  then show ?thesis by (simp add: mcq_of_raw_def)
qed

text \<open>
  C5 (no well-formed JSON array gives the empty sequence). Whenever \<open>json.loads\<close>, on
  the text between the brackets, raises or returns something that is not a list, the
  result is the empty sequence; and a response without \<open>[\<close> or without \<open>]\<close> gives the
  empty sequence with the decoder modelled above. The function is total, no case raises.
\<close>

theorem gen_mcq_no_array_empty:
  "((\<forall>xs. loads (json_span raw) \<noteq> Inr (JList xs)) \<longrightarrow> mcq_of_raw loads raw n = []) \<and>
   (CHR ''['' \<notin> set raw \<or> CHR '']'' \<notin> set raw \<longrightarrow> mcq_of_raw (json_loads pf) raw n = [])"
  using mcq_of_raw_not_list mcq_of_raw_no_brackets by blast

section \<open>Element by element\<close>

lemma collect_valid_eq:
  "collect_valid xs =
     (if \<exists>x \<in> set xs. item_ok x \<and> make_item x = None then None
      else Some (map (\<lambda>x. the (make_item x)) (filter item_ok xs)))"
  by (induction xs) (auto split: option.splits)

lemma make_item_fails:
  assumes "item_ok (JDict kvs)"
  shows "(make_item (JDict kvs) = None) = (py_int (the (map_of kvs ''key'')) = None)"
proof -
  from assms obtain qv opts kv where
    "map_of kvs ''q'' = Some qv" "map_of kvs ''a'' = Some (JList opts)" "map_of kvs ''key'' = Some kv"
    by (auto split: option.splits json.splits)
  then show ?thesis by simp
qed

text \<open>
  What the loop does with a parsed list. An element that fails the test of the \<open>if\<close> (not
  a dict, a field \<open>q\<close>, \<open>a\<close> or \<open>key\<close> missing, \<open>a\<close> not a list of at least 4 entries) is
  dropped and the others are accepted, normalised and returned up to the first \<open>n\<close>,
  provided every element that passes the test has a key that converts to an integer. If
  one element passes the test and its key does not convert, \<open>int\<close> raises inside the one
  \<open>try\<close> block around the loop and the whole result is empty.
\<close>

lemma mcq_of_raw_elementwise:
  assumes "loads (json_span raw) = Inr (JList xs)"
  shows "((\<forall>x \<in> set xs. item_ok x \<longrightarrow> make_item x \<noteq> None) \<longrightarrow>
            mcq_of_raw loads raw n =
              py_slice (map (\<lambda>x. the (make_item x)) (filter item_ok xs)) 0 n) \<and>
         ((\<exists>x \<in> set xs. item_ok x \<and> make_item x = None) \<longrightarrow> mcq_of_raw loads raw n = []) \<and>
         (\<forall>kvs. item_ok (JDict kvs) \<longrightarrow>
            (make_item (JDict kvs) = None) = (py_int (the (map_of kvs ''key'')) = None))"
proof (intro conjI impI allI)
  assume "\<forall>x \<in> set xs. item_ok x \<longrightarrow> make_item x \<noteq> None"
  then have "collect_valid xs = Some (map (\<lambda>x. the (make_item x)) (filter item_ok xs))"
    by (auto simp: collect_valid_eq)
  with assms show "mcq_of_raw loads raw n =
      py_slice (map (\<lambda>x. the (make_item x)) (filter item_ok xs)) 0 n"
    by (simp add: mcq_of_raw_def)
next
  assume "\<exists>x \<in> set xs. item_ok x \<and> make_item x = None"
  then have "collect_valid xs = None" by (simp add: collect_valid_eq)
  with assms show "mcq_of_raw loads raw n = []" by (simp add: mcq_of_raw_def)
next
  fix kvs assume "item_ok (JDict kvs)"
  then show "(make_item (JDict kvs) = None) = (py_int (the (map_of kvs ''key'')) = None)"
    by (rule make_item_fails)
qed

section \<open>strip and ask\_model\<close>

lemma py_strip_split:
  "dropWhile is_space s = py_strip s @ rev (takeWhile is_space (rev (dropWhile is_space s)))"
proof -
  let ?m = "dropWhile is_space s"
  have "py_strip s @ rev (takeWhile is_space (rev ?m)) =
        rev (takeWhile is_space (rev ?m) @ dropWhile is_space (rev ?m))"
    by (simp only: py_strip_def rev_append)
  also have "\<dots> = ?m" by simp
  finally show ?thesis by simp
qed

lemma py_strip_parts:
  "\<exists>pre post. s = pre @ py_strip s @ post \<and> (\<forall>c \<in> set pre. is_space c) \<and> (\<forall>c \<in> set post. is_space c)"
proof -
  let ?pre = "takeWhile is_space s"
  let ?mid = "dropWhile is_space s"
  let ?post = "rev (takeWhile is_space (rev ?mid))"
  have "s = ?pre @ ?mid" by simp
  also have "?mid = py_strip s @ ?post" by (rule py_strip_split)
  finally have 1: "s = ?pre @ py_strip s @ ?post" .
  have 3: "\<forall>c \<in> set ?pre. is_space c" by (auto dest: set_takeWhileD)
  have 4: "\<forall>c \<in> set ?post. is_space c" by (auto dest: set_takeWhileD)
  from 1 3 4 show ?thesis by blast
qed

lemma py_strip_ends:
  "py_strip s \<noteq> [] \<Longrightarrow> \<not> is_space (hd (py_strip s)) \<and> \<not> is_space (last (py_strip s))"
proof -
  assume ne: "py_strip s \<noteq> []"
  let ?m = "dropWhile is_space s"
  let ?d = "dropWhile is_space (rev ?m)"
  from ne have dne: "?d \<noteq> []" by (simp add: py_strip_def)
  then have h: "\<not> is_space (hd ?d)" by (rule hd_dropWhile)
  from dne have l: "last (py_strip s) = hd ?d" by (simp add: py_strip_def last_rev)
  have mne: "?m \<noteq> []"
  proof
    assume e: "?m = []"
    have "?d = dropWhile is_space (rev [])" by (simp only: e)
    then have "?d = []" by simp
    with dne show False ..
  qed
  then have hm: "\<not> is_space (hd ?m)" by (rule hd_dropWhile)
  from py_strip_split [of s] ne have "hd ?m = hd (py_strip s)" by (metis hd_append2)
  with hm h l show ?thesis by simp
qed

text \<open>
  C7 (ask\_model always returns a string). If the call raises with message \<open>e\<close>, the
  result is the failure message around \<open>e\<close>; if the response has no text, the result is
  the empty string; if it has the text \<open>t\<close>, the result is \<open>t\<close> without the whitespace at
  its two ends: \<open>t\<close> is the result between two runs of whitespace, and the result neither
  starts nor ends with whitespace. ask\_model is total: with a call that fails only by
  raising an \<open>Exception\<close>, it returns in every case.
\<close>

theorem ask_model_always_string:
  "(client \<lparr>model = model_id,
            contents = [(''user'', ''SYSTEM:'' @ [nl] @ system), (''user'', user)],
            temperature = temp\<rparr> = Inl e \<longrightarrow>
      ask_model client model_id system user temp = ''(Gagal memanggil model: '' @ e @ '')'') \<and>
   (client \<lparr>model = model_id,
            contents = [(''user'', ''SYSTEM:'' @ [nl] @ system), (''user'', user)],
            temperature = temp\<rparr> = Inr None \<longrightarrow>
      ask_model client model_id system user temp = []) \<and>
   (\<forall>t. client \<lparr>model = model_id,
            contents = [(''user'', ''SYSTEM:'' @ [nl] @ system), (''user'', user)],
            temperature = temp\<rparr> = Inr (Some t) \<longrightarrow>
      ask_model client model_id system user temp = py_strip t \<and>
      (\<exists>pre post. t = pre @ py_strip t @ post \<and>
         (\<forall>c \<in> set pre. is_space c) \<and> (\<forall>c \<in> set post. is_space c)) \<and>
      (py_strip t \<noteq> [] \<longrightarrow> \<not> is_space (hd (py_strip t)) \<and> \<not> is_space (last (py_strip t))))"
proof (intro conjI impI allI)
  fix t
  show "\<exists>pre post. t = pre @ py_strip t @ post \<and>
         (\<forall>c \<in> set pre. is_space c) \<and> (\<forall>c \<in> set post. is_space c)"
    by (rule py_strip_parts)
next
  fix t assume "py_strip t \<noteq> []"
  then show "\<not> is_space (hd (py_strip t))" using py_strip_ends by blast
next
  fix t assume "py_strip t \<noteq> []"
  then show "\<not> is_space (last (py_strip t))" using py_strip_ends by blast
qed (simp_all add: ask_model_def py_strip_def)


lemma mcq_of_raw_span: "json_span raw = json_span raw' \<Longrightarrow> mcq_of_raw loads raw n = mcq_of_raw loads raw' n"
  by (simp add: mcq_of_raw_def)

text \<open>
  C6 (only the text from the first \<open>[\<close> to the last \<open>]\<close> is parsed). For a response
  \<open>pre [ mid ] post\<close> with no \<open>[\<close> in \<open>pre\<close> and no \<open>]\<close> in \<open>post\<close>, the text handed to
  \<open>json.loads\<close> is \<open>[ mid ]\<close>, and the result is that of the response \<open>[ mid ]\<close> alone.
  The response of the scenario gives exactly one item, with 4 options and key 2.
\<close>

theorem gen_mcq_parses_bracket_span:
  \<open>(CHR ''['' \<notin> set pre \<and> CHR '']'' \<notin> set post \<longrightarrow>
      json_span (pre @ ''['' @ mid @ '']'' @ post) = ''['' @ mid @ '']'' \<and>
      mcq_of_raw loads (pre @ ''['' @ mid @ '']'' @ post) n = mcq_of_raw loads (''['' @ mid @ '']'') n) \<and>
   mcq_of_raw (json_loads pf)
     (''Here are your questions:'' @ [nl] @ ''[{"q":"Q1","a":["A","B","C","D"],"key":2}]'') 5 =
     [\<lparr>q = JStr ''Q1'', a = [JStr ''A'', JStr ''B'', JStr ''C'', JStr ''D''], key = 2\<rparr>]\<close>
proof (intro conjI impI)
  assume h: "CHR ''['' \<notin> set pre \<and> CHR '']'' \<notin> set post"
  then show s: "json_span (pre @ ''['' @ mid @ '']'' @ post) = ''['' @ mid @ '']''"
    using json_span_brackets [of pre post mid] by blast
  have "json_span ([] @ ''['' @ mid @ '']'' @ []) = ''['' @ mid @ '']''"
    by (rule json_span_brackets) simp_all
  with s have "json_span (pre @ ''['' @ mid @ '']'' @ post) = json_span (''['' @ mid @ '']'')"
    by simp
  then show "mcq_of_raw loads (pre @ ''['' @ mid @ '']'' @ post) n = mcq_of_raw loads (''['' @ mid @ '']'') n"
    by (rule mcq_of_raw_span)
next
  show \<open>mcq_of_raw (json_loads pf)
     (''Here are your questions:'' @ [nl] @ ''[{"q":"Q1","a":["A","B","C","D"],"key":2}]'') 5 =
     [\<lparr>q = JStr ''Q1'', a = [JStr ''A'', JStr ''B'', JStr ''C'', JStr ''D''], key = 2\<rparr>]\<close>
    by code_simp
qed

theorem gen_mcq_parses_bracket_span_witness:
  \<open>json_span (''Here are your questions:'' @ ''['' @ ''1, 2'' @ '']'' @ '' Selamat belajar!'') = ''['' @ ''1, 2'' @ '']''\<close>
proof -
  have h: "CHR ''['' \<notin> set ''Here are your questions:'' \<and> CHR '']'' \<notin> set '' Selamat belajar!''"
    by simp
  from gen_mcq_parses_bracket_span [THEN conjunct1, THEN mp, OF h, THEN conjunct1]
  show ?thesis .
qed

theorem gen_mcq_count_and_options_witness:
  \<open>int (length (mcq_of_raw (json_loads no_floats) ''[{"q":"Q1","a":["A","B","C","D"],"key":2}]'' 5)) \<le> 5\<close>
proof -
  have h: "(0::int) \<le> 5" by simp
  from gen_mcq_count_and_options [OF h, THEN conjunct1] show ?thesis .
qed

text \<open>
  C2 as written fails in two ways: with the requested count \<open>-1\<close> the slice \<open>valid[:n]\<close>
  drops the last item and returns one item, more than \<open>n\<close>; and options that are numbers
  are returned as numbers, not as strings.
\<close>

theorem gen_mcq_count_and_options_counterexample:
  \<open>mcq_of_raw (json_loads no_floats)
     ''[{"q":"Q1","a":[1,2,3,4],"key":0},{"q":"Q2","a":[1,2,3,4],"key":1}]'' (- 1) =
     [\<lparr>q = JStr ''Q1'', a = [JInt 1, JInt 2, JInt 3, JInt 4], key = 0\<rparr>] \<and>
   \<not> int (length (mcq_of_raw (json_loads no_floats)
     ''[{"q":"Q1","a":[1,2,3,4],"key":0},{"q":"Q2","a":[1,2,3,4],"key":1}]'' (- 1))) \<le> - 1 \<and>
   mcq_of_raw (json_loads no_floats) ''[{"q":"Q1","a":[1,2,3,4],"key":0}]'' 5 =
     [\<lparr>q = JStr ''Q1'', a = [JInt 1, JInt 2, JInt 3, JInt 4], key = 0\<rparr>]\<close>
proof -
  have 1: \<open>mcq_of_raw (json_loads no_floats)
     ''[{"q":"Q1","a":[1,2,3,4],"key":0},{"q":"Q2","a":[1,2,3,4],"key":1}]'' (- 1) =
     [\<lparr>q = JStr ''Q1'', a = [JInt 1, JInt 2, JInt 3, JInt 4], key = 0\<rparr>]\<close>
    by code_simp
  have 2: \<open>mcq_of_raw (json_loads no_floats) ''[{"q":"Q1","a":[1,2,3,4],"key":0}]'' 5 =
     [\<lparr>q = JStr ''Q1'', a = [JInt 1, JInt 2, JInt 3, JInt 4], key = 0\<rparr>]\<close>
    by code_simp
  show ?thesis unfolding 1 2 by simp
qed

text \<open>
  C4 (each element is accepted or dropped on its own; an element whose key does not
  convert to an integer is dropped and every other valid element is still returned).
  The code does not do this. The conversion of the key is not part of the test of the
  \<open>if\<close>: it runs in the body, inside the \<open>try\<close> block that surrounds the whole loop. For
  a response of two elements, the first valid and the second with the letter \<open>B\<close> as its
  key, \<open>int\<close> raises on the second and the valid first element is lost with it: the
  result is empty. When the second element lacks the key instead, it fails the test, is
  dropped alone, and the first element is returned.
\<close>

theorem gen_mcq_bad_key_drops_valid_items:
  \<open>mcq_of_raw (json_loads no_floats)
     ''[{"q":"Q1","a":["A","B","C","D"],"key":2},{"q":"Q2","a":["A","B","C","D"],"key":"B"}]'' 5 = [] \<and>
   mcq_of_raw (json_loads no_floats)
     ''[{"q":"Q1","a":["A","B","C","D"],"key":2},{"q":"Q2","a":["A","B","C","D"]}]'' 5 =
     [\<lparr>q = JStr ''Q1'', a = [JStr ''A'', JStr ''B'', JStr ''C'', JStr ''D''], key = 2\<rparr>]\<close>
proof -
  have 1: \<open>mcq_of_raw (json_loads no_floats)
     ''[{"q":"Q1","a":["A","B","C","D"],"key":2},{"q":"Q2","a":["A","B","C","D"],"key":"B"}]'' 5 = []\<close>
    by code_simp
  have 2: \<open>mcq_of_raw (json_loads no_floats)
     ''[{"q":"Q1","a":["A","B","C","D"],"key":2},{"q":"Q2","a":["A","B","C","D"]}]'' 5 =
     [\<lparr>q = JStr ''Q1'', a = [JStr ''A'', JStr ''B'', JStr ''C'', JStr ''D''], key = 2\<rparr>]\<close>
    by code_simp
  from 1 2 show ?thesis by (rule conjI)
qed

text \<open>
  The loop on a response of three elements: a key given as the text \<open>2\<close> converts, the
  number 7 and the element with two options fail the test and are dropped.
\<close>

lemma mcq_of_raw_elementwise_example:
  \<open>mcq_of_raw (json_loads no_floats)
     ''[{"q":"Q1","a":["A","B","C","D","E"],"key":"2"}, 7, {"q":"Q2","a":["A","B"],"key":1}]'' 5 =
     [\<lparr>q = JStr ''Q1'', a = [JStr ''A'', JStr ''B'', JStr ''C'', JStr ''D''], key = 2\<rparr>]\<close>
proof -
  let ?raw = \<open>''[{"q":"Q1","a":["A","B","C","D","E"],"key":"2"}, 7, {"q":"Q2","a":["A","B"],"key":1}]''\<close>
  let ?xs = "[JDict [(''q'', JStr ''Q1''),
                     (''a'', JList [JStr ''A'', JStr ''B'', JStr ''C'', JStr ''D'', JStr ''E'']),
                     (''key'', JStr ''2'')],
              JInt 7,
              JDict [(''q'', JStr ''Q2''), (''a'', JList [JStr ''A'', JStr ''B'']), (''key'', JInt 1)]]"
  have l: "json_loads no_floats (json_span ?raw) = Inr (JList ?xs)"
    by code_simp
  have ok: "\<forall>x \<in> set ?xs. item_ok x \<longrightarrow> make_item x \<noteq> None"
    by code_simp
  have v: "py_slice (map (\<lambda>x. the (make_item x)) (filter item_ok ?xs)) 0 5 =
      [\<lparr>q = JStr ''Q1'', a = [JStr ''A'', JStr ''B'', JStr ''C'', JStr ''D''], key = 2\<rparr>]"
    by code_simp
  note t = mcq_of_raw_elementwise [where loads = "json_loads no_floats" and raw = ?raw and xs = ?xs and n = 5]
  from t [OF l, THEN conjunct1, THEN mp, OF ok] v
  show ?thesis by simp
qed

theorem gen_mcq_no_array_empty_witness:
  \<open>mcq_of_raw (json_loads no_floats) ''[{"q":"Q1","a":["A","B","C","D"],"key":2},]'' 5 = [] \<and>
   mcq_of_raw (json_loads no_floats) ''Maaf, saya tidak bisa membuat soal.'' 5 = []\<close>
proof -
  let ?raw = \<open>''[{"q":"Q1","a":["A","B","C","D"],"key":2},]''\<close>
  have "json_loads no_floats (json_span ?raw) = Inl ''JSONDecodeError''"
    by code_simp
  then have h: "\<forall>xs. json_loads no_floats (json_span ?raw) \<noteq> Inr (JList xs)" by simp
  have g: "CHR ''['' \<notin> set ''Maaf, saya tidak bisa membuat soal.'' \<or>
           CHR '']'' \<notin> set ''Maaf, saya tidak bisa membuat soal.''" by simp
  note t = gen_mcq_no_array_empty [where loads = "json_loads no_floats" and raw = ?raw and n = 5]
  note u = gen_mcq_no_array_empty [where pf = no_floats and n = 5
      and raw = "''Maaf, saya tidak bisa membuat soal.''"]
  from t [THEN conjunct1, THEN mp, OF h] u [THEN conjunct2, THEN mp, OF g]
  show ?thesis by (rule conjI)
qed

theorem ask_model_always_string_witness:
  "ask_model (\<lambda>req. Inl ''503 UNAVAILABLE'') ''gemini-1.5-flash'' ''s'' ''u'' (3 / 10) =
     ''(Gagal memanggil model: 503 UNAVAILABLE)'' \<and>
   ask_model (\<lambda>req. Inr None) ''gemini-1.5-flash'' ''s'' ''u'' (3 / 10) = [] \<and>
   ask_model (\<lambda>req. Inr (Some (''  Halo!'' @ [nl]))) ''gemini-1.5-flash'' ''s'' ''u'' (3 / 10) = ''Halo!''"
proof -
  let ?req = "\<lparr>model = ''gemini-1.5-flash'',
               contents = [(''user'', ''SYSTEM:'' @ [nl] @ ''s''), (''user'', ''u'')],
               temperature = 3 / 10\<rparr>"
  have 1: "(\<lambda>req. Inl ''503 UNAVAILABLE'' :: string + string option) ?req = Inl ''503 UNAVAILABLE''"
    by simp
  have 2: "(\<lambda>req. Inr None :: string + string option) ?req = Inr None" by simp
  have 3: "(\<lambda>req. Inr (Some (''  Halo!'' @ [nl])) :: string + string option) ?req =
      Inr (Some (''  Halo!'' @ [nl]))" by simp
  have s: "py_strip (''  Halo!'' @ [nl]) = ''Halo!''"
    by (simp add: py_strip_def is_space_def nl_def)
  note t = ask_model_always_string
  from t [THEN conjunct1, THEN mp, OF 1]
       t [THEN conjunct2, THEN conjunct1, THEN mp, OF 2]
       t [THEN conjunct2, THEN conjunct2, THEN spec, THEN mp, OF 3, THEN conjunct1] s
  show ?thesis by simp
qed

section \<open>Properties of build\_kb\_text\<close>

lemma budget_loop_prefix: "\<exists>k. budget_loop out sz cs = out @ take k cs"
proof (induction cs arbitrary: out sz)
  case Nil
  then show ?case by simp
next
  case (Cons c cs)
  show ?case
  proof (cases "sz + length c > limit")
    case True
    then have "budget_loop out sz (c # cs) = out @ take 0 (c # cs)" by simp
    then show ?thesis by blast
  next
    case False
    from Cons.IH [of "out @ [c]" "sz + length c"] obtain k where
      "budget_loop (out @ [c]) (sz + length c) cs = (out @ [c]) @ take k cs" by blast
    with False have "budget_loop out sz (c # cs) = out @ take (Suc k) (c # cs)" by simp
    then show ?thesis by blast
  qed
qed

lemma budget_loop_sum:
  "sz = sum_list (map length out) \<Longrightarrow> sz \<le> limit \<Longrightarrow>
   sum_list (map length (budget_loop out sz cs)) \<le> limit"
proof (induction cs arbitrary: out sz)
  case Nil
  then show ?case by simp
next
  case (Cons c cs)
  show ?case
  proof (cases "sz + length c > limit")
    case True
    with Cons.prems show ?thesis by simp
  next
    case False
    from Cons.prems have "sz + length c = sum_list (map length (out @ [c]))" by simp
    from Cons.IH [OF this] False
    have "sum_list (map length (budget_loop (out @ [c]) (sz + length c) cs)) \<le> limit" by simp
    with False show ?thesis by simp
  qed
qed

lemma budget_loop_all:
  "sz + sum_list (map length cs) \<le> limit \<Longrightarrow> budget_loop out sz cs = out @ cs"
  by (induction cs arbitrary: out sz) auto

lemma length_py_join:
  "xs \<noteq> [] \<Longrightarrow> length (py_join sep xs) = sum_list (map length xs) + length sep * (length xs - 1)"
  by (induction sep xs rule: py_join.induct) auto

lemma build_kb_text_length:
  "length (build_kb_text split_text files pasted) \<le>
     limit + 2 * (length (split_text (py_join [nl, nl]
        (filter (\<lambda>t. t \<noteq> []) (collect_texts files @
           (if py_strip pasted \<noteq> [] then [py_strip pasted] else []))))) - 1)"
proof -
  let ?full = "py_join [nl, nl] (filter (\<lambda>t. t \<noteq> []) (collect_texts files @
           (if py_strip pasted \<noteq> [] then [py_strip pasted] else [])))"
  let ?out = "budget_loop [] 0 (split_text ?full)"
  have s: "sum_list (map length ?out) \<le> limit" by (rule budget_loop_sum) simp_all
  from budget_loop_prefix [of "[]" 0 "split_text ?full"] obtain k where
    "?out = take k (split_text ?full)" by auto
  then have l: "length ?out \<le> length (split_text ?full)" by simp
  have "length (py_join [nl, nl] ?out) \<le> limit + 2 * (length (split_text ?full) - 1)"
  proof (cases "?out = []")
    case True
    then show ?thesis by simp
  next
    case False
    from length_py_join [OF False, of "[nl, nl]"] s l show ?thesis by simp
  qed
  then show ?thesis by (simp add: build_kb_text_def Let_def)
qed

section \<open>Twenty-one paragraphs of 1190 characters\<close>

lemma split_blank_lines_plain: "nl \<notin> set p \<Longrightarrow> split_blank_lines p = [p]"
  by (induction p rule: split_blank_lines.induct) auto

lemma split_blank_lines_first:
  "nl \<notin> set p \<Longrightarrow> split_blank_lines (p @ nl # nl # rest) = p # split_blank_lines rest"
proof (induction p)
  case Nil
  then show ?case by simp
next
  case (Cons c p)
  then have "c \<noteq> nl" by auto
  with Cons show ?case by (cases "p @ nl # nl # rest") auto
qed

lemma split_blank_lines_join:
  "nl \<notin> set p \<Longrightarrow> split_blank_lines (py_join [nl, nl] (replicate (Suc n) p)) = replicate (Suc n) p"
proof (induction n)
  case 0
  then show ?case by (simp add: split_blank_lines_plain)
next
  case (Suc n)
  have "py_join [nl, nl] (replicate (Suc (Suc n)) p) = p @ nl # nl # py_join [nl, nl] (replicate (Suc n) p)"
    by simp
  moreover have "split_blank_lines (p @ nl # nl # py_join [nl, nl] (replicate (Suc n) p)) =
      p # split_blank_lines (py_join [nl, nl] (replicate (Suc n) p))"
    by (rule split_blank_lines_first [OF Suc.prems])
  ultimately have "split_blank_lines (py_join [nl, nl] (replicate (Suc (Suc n)) p)) =
      p # split_blank_lines (py_join [nl, nl] (replicate (Suc n) p))"
    by (simp only:)
  also have "\<dots> = p # replicate (Suc n) p" using Suc by simp
  finally show ?case by simp
qed


lemma para_facts: "length para = 1190" "nl \<notin> set para" "para \<noteq> []" "py_strip para = para"
proof -
  show "length para = 1190" by (simp add: para_def)
  show n: "nl \<notin> set para" by (simp add: para_def nl_def)
  show "para \<noteq> []" by (simp add: para_def)
  have a: "\<not> is_space CHR ''a''" by (simp add: is_space_def)
  have h: "para = CHR ''a'' # replicate 1189 CHR ''a''"
    unfolding para_def by (simp add: replicate_Suc [symmetric] del: replicate_Suc)
  have l: "rev para = para" by (simp add: para_def)
  have "dropWhile is_space (CHR ''a'' # replicate 1189 CHR ''a'') = CHR ''a'' # replicate 1189 CHR ''a''"
    using a by simp
  then have "dropWhile is_space para = para" by (simp only: h [symmetric])
  then show "py_strip para = para" by (simp add: py_strip_def l)
qed

lemma split_paragraphs_paras: "split_paragraphs (py_join [nl, nl] (replicate 21 para)) = replicate 21 para"
proof -
  have "split_blank_lines (py_join [nl, nl] (replicate (Suc 20) para)) = replicate (Suc 20) para"
    by (rule split_blank_lines_join) (rule para_facts)
  then have "split_blank_lines (py_join [nl, nl] (replicate 21 para)) = replicate 21 para"
    by simp
  then show ?thesis by (simp add: split_paragraphs_def para_facts)
qed

lemma py_strip_id: "s \<noteq> [] \<Longrightarrow> \<not> is_space (hd s) \<Longrightarrow> \<not> is_space (last s) \<Longrightarrow> py_strip s = s"
proof -
  assume ne: "s \<noteq> []" and h: "\<not> is_space (hd s)" and l: "\<not> is_space (last s)"
  from ne h have 1: "dropWhile is_space s = s" by (cases s) auto
  from ne l have "\<not> is_space (hd (rev s))" by (simp add: hd_rev)
  with ne have 2: "dropWhile is_space (rev s) = rev s" by (cases "rev s") auto
  show ?thesis by (simp add: py_strip_def 1 2)
qed

lemma hd_py_join: "x \<noteq> [] \<Longrightarrow> hd (py_join sep (x # xs)) = hd x"
  by (cases xs) auto

lemma py_join_nonempty: "xs \<noteq> [] \<Longrightarrow> last xs \<noteq> [] \<Longrightarrow> py_join sep xs \<noteq> []"
  by (induction sep xs rule: py_join.induct) auto

lemma last_py_join: "xs \<noteq> [] \<Longrightarrow> last xs \<noteq> [] \<Longrightarrow> last (py_join sep xs) = last (last xs)"
proof (induction sep xs rule: py_join.induct)
  case (3 sep x y ys)
  then have l: "last (y # ys) \<noteq> []" by simp
  from py_join_nonempty [OF _ l, of sep] have ne: "py_join sep (y # ys) \<noteq> []" by simp
  from 3 l have "last (py_join sep (y # ys)) = last (last (y # ys))" by simp
  with ne show ?case by simp
qed simp_all

lemma hd_last_para: "hd para = CHR ''a''" "last para = CHR ''a''"
proof -
  show "hd para = CHR ''a''" by (simp add: para_def hd_replicate)
  show "last para = CHR ''a''" by (simp add: para_def)
qed

text \<open>
  C1 (the context blob has at most 25,000 characters). The loop adds up the lengths of
  the chunks it keeps and leaves the separators of the final join out of the sum. For a
  pasted text of 21 paragraphs of 1190 letters, one chunk per paragraph, the chunks sum
  to 24,990, all are kept, and the 20 separators bring the result to 25,030 characters.
\<close>

theorem build_kb_text_over_budget:
  "length (build_kb_text split_paragraphs [] (py_join [nl, nl] (replicate 21 para))) = 25030"
proof -
  let ?text = "py_join [nl, nl] (replicate 21 para)"
  have len: "length ?text = 25030"
    by (simp add: length_py_join para_facts sum_list_replicate)
  then have ne: "?text \<noteq> []" by auto
  have a: "\<not> is_space CHR ''a''" by (simp add: is_space_def)
  have r: "replicate 21 para = para # replicate 20 para"
    by (simp add: replicate_Suc [symmetric] del: replicate_Suc)
  have "hd ?text = hd para" unfolding r by (rule hd_py_join) (rule para_facts)
  then have h: "\<not> is_space (hd ?text)" using a by (simp add: hd_last_para)
  have "last ?text = last (last (replicate 21 para))"
    by (rule last_py_join) (simp_all add: para_facts)
  then have l: "\<not> is_space (last ?text)" using a by (simp add: hd_last_para)
  have strip: "py_strip ?text = ?text" by (rule py_strip_id [OF ne h l])
  have b: "budget_loop [] 0 (replicate 21 para) = replicate 21 para"
    using budget_loop_all [of 0 "replicate 21 para" "[]"]
    by (simp add: para_facts sum_list_replicate limit_def)
  have "build_kb_text split_paragraphs [] ?text = py_join [nl, nl] (budget_loop [] 0 (split_paragraphs ?text))"
    using ne by (simp add: build_kb_text_def Let_def strip)
  also have "\<dots> = ?text" by (simp only: split_paragraphs_paras b)
  finally show ?thesis using len by simp
qed


section \<open>Properties of the import and the export\<close>

lemma truthy_dict_get_present:
  "truthy (dict_get kvs k JNull) \<Longrightarrow> \<exists>v. map_of kvs k = Some v \<and> truthy v"
  by (cases "map_of kvs k") (simp_all add: dict_get_def)

lemma import_json_dict:
  assumes "decode doc = Inr str" and "loads str = Inr (JDict kvs)"
  shows "import_json decode loads doc s =
     (s\<lparr>messages := dict_get kvs ''messages'' (JList []),
        kb_text := dict_get kvs ''kb_text'' (JStr []),
        last_quiz_result :=
          (if truthy (dict_get kvs ''last_quiz_result'' JNull)
           then map_of kvs ''last_quiz_result'' else last_quiz_result s)\<rparr>,
      Success ''Berhasil di-import. Buka tab Chat/Quiz untuk melihat hasilnya.'')"
proof (cases "truthy (dict_get kvs ''last_quiz_result'' JNull)")
  case True
  from truthy_dict_get_present [OF True] obtain v where "map_of kvs ''last_quiz_result'' = Some v"
    by blast
  with True assms show ?thesis by (simp add: import_json_def Let_def)
next
  case False
  with assms show ?thesis by (simp add: import_json_def Let_def)
qed

lemma import_json_failure_unchanged:
  assumes "import_json decode loads doc s = (s', Failure msg)"
  shows "s' = s"
proof (cases "decode doc")
  case (Inl e)
  with assms show ?thesis by (simp add: import_json_def)
next
  case (Inr str)
  show ?thesis
  proof (cases "loads str")
    case (Inl e)
    with Inr assms show ?thesis by (simp add: import_json_def)
  next
    case r: (Inr data)
    show ?thesis
    proof (cases "\<exists>kvs. data = JDict kvs")
      case True
      then obtain kvs where "data = JDict kvs" ..
      with r have l: "loads str = Inr (JDict kvs)" by simp
      note d = import_json_dict [where decode = decode and loads = loads and kvs = kvs
          and doc = doc and str = str and s = s]
      from d [OF Inr l] have "snd (import_json decode loads doc s) =
          Success ''Berhasil di-import. Buka tab Chat/Quiz untuk melihat hasilnya.''"
        by simp
      with assms show ?thesis by simp
    next
      case False
      with Inr r have "import_json decode loads doc s =
          (s, Failure (''Gagal import JSON: '' @ [sq] @ type_name data @ [sq] @
                       '' object has no attribute '' @ [sq] @ ''get'' @ [sq]))"
        by (cases data) (simp_all add: import_json_def)
      with assms show ?thesis by simp
    qed
  qed
qed

text \<open>
  C9 (an import that fails leaves the session as it was). If decoding the document or
  parsing its text raises with message \<open>e\<close>, the handler reports the error message built
  from \<open>e\<close> and returns the session unchanged; and in every case in which the handler
  reports an error, the session it leaves is the session it started from: no import stops
  half-way.
\<close>

theorem import_json_parse_failure:
  "(decode doc = Inl e \<longrightarrow>
      import_json decode loads doc s = (s, Failure (''Gagal import JSON: '' @ e))) \<and>
   (decode doc = Inr str \<and> loads str = Inl e \<longrightarrow>
      import_json decode loads doc s = (s, Failure (''Gagal import JSON: '' @ e))) \<and>
   (\<forall>s' msg. import_json decode loads doc s = (s', Failure msg) \<longrightarrow> s' = s)"
proof (intro conjI impI allI)
  assume "decode doc = Inl e"
  then show "import_json decode loads doc s = (s, Failure (''Gagal import JSON: '' @ e))"
    by (simp add: import_json_def)
next
  assume "decode doc = Inr str \<and> loads str = Inl e"
  then show "import_json decode loads doc s = (s, Failure (''Gagal import JSON: '' @ e))"
    by (simp add: import_json_def)
next
  fix s' msg assume "import_json decode loads doc s = (s', Failure msg)"
  then show "s' = s" by (rule import_json_failure_unchanged)
qed

theorem import_json_parse_failure_witness:
  \<open>import_json utf8_decode (json_loads no_floats) ''{"messages": [}''
     \<lparr>messages = JList [], kb_text = JStr ''catatan'', last_quiz_result = None\<rparr> =
   (\<lparr>messages = JList [], kb_text = JStr ''catatan'', last_quiz_result = None\<rparr>,
    Failure ''Gagal import JSON: JSONDecodeError'')\<close>
proof -
  let ?doc = \<open>''{"messages": [}''\<close>
  have d: "utf8_decode ?doc = Inr ?doc" by code_simp
  have l: "json_loads no_floats ?doc = Inl ''JSONDecodeError''" by code_simp
  from d l have h: "utf8_decode ?doc = Inr ?doc \<and> json_loads no_floats ?doc = Inl ''JSONDecodeError''"
    by (rule conjI)
  note t = import_json_parse_failure [where decode = utf8_decode and loads = "json_loads no_floats"
      and doc = ?doc and str = ?doc and e = "''JSONDecodeError''"]
  from t [THEN conjunct2, THEN conjunct1, THEN mp, OF h] show ?thesis by simp
qed

section \<open>Written by json.dumps, read by json.loads\<close>

section \<open>UTF-8 there and back\<close>




section \<open>Strings there and back\<close>




section \<open>Integers there and back\<close>



















section \<open>The tokens of the leaves\<close>






















section \<open>The tokens of a list of written items\<close>


lemma map_option_append_cons_tok:
  "map_option ((@) xs) (cons_tok t r) = map_option ((@) (xs @ [t])) r"
  by (cases r) (simp_all add: cons_tok_def)


lemma cons_tok_single: "cons_tok t r = map_option ((@) [t]) r"
  by (cases r) (simp_all add: cons_tok_def)


section \<open>The tokens of a written value are the tokens of the value\<close>





section \<open>Reading the tokens of a value\<close>









section \<open>A dict read from pairs with distinct keys\<close>




section \<open>The value read from the tokens of a value\<close>


section \<open>Written, then read\<close>



section \<open>Export, then import\<close>








end
